theory Spec2Isabelle
  imports Main
begin

section \<open>Exceptions\<close>

text \<open>
  Python exceptions are values: the class, the message and the implicit
  \<open>__context__\<close> link that the interpreter sets when an exception is raised while
  another one is being handled. \<open>InvalidRequestError\<close> is the class that
  \<open>engine.py\<close> imports from \<open>.exc\<close>; \<open>ClosedError\<close>, \<open>TimeoutError\<close> and
  \<open>InvalidStateError\<close> are the kinds that section 7 of the specification gives
  the pool and the wrappers; \<open>BodyError\<close> stands for whatever a caller's own
  block raises.
\<close>

datatype exc_kind =
    InvalidRequestError
  | RuntimeError
  | AttributeError
  | ValueError
  | ClosedError
  | TimeoutError
  | InvalidStateError
  | BodyError

datatype exn = Exn (exn_kind: exc_kind) (exn_message: string) (exn_context: "exn option")

fun set_context :: "exn \<Rightarrow> exn \<Rightarrow> exn" where
  "set_context (Exn k m c) handled = Exn k m (Some handled)"

section \<open>The raw connection and the pool\<close>

text \<open>
  \<open>pool.py\<close> and \<open>core.py\<close> are not among the source files; \<open>engine.py\<close> only
  calls them. What the engine needs of them is modelled from sections 3 and 4.3 of the
  specification.
\<close>

text \<open>Modelled from the spec: the Bridge of \<open>core.py\<close>, as far as the Pool looks at it
  (identity, creation timestamp, failed state, in-transaction flag).\<close>

record bridge =
  ident :: nat
  created :: nat
  failed :: bool
  in_tx :: bool

datatype pool_state = Open | Closing | Closed

text \<open>Modelled from the spec: the Pool of \<open>pool.py\<close>. The idle set is kept in
  hand-back order and the in-use set holds the identities of the Bridges checked out.\<close>

record pool =
  minsize :: nat
  maxsize :: nat
  timeout :: nat
  recycle :: int
  idle :: "bridge list"
  in_use :: "nat list"
  state :: pool_state
  next_ident :: nat

text \<open>Modelled from the spec: the Pool's read-only properties \<open>size\<close> (idle + in-use
  count), \<open>freesize\<close> (idle only) and \<open>closed\<close>.\<close>

definition Pool_size :: "pool \<Rightarrow> nat" where
  "Pool_size p = length (idle p) + length (in_use p)"

definition Pool_freesize :: "pool \<Rightarrow> nat" where
  "Pool_freesize p = length (idle p)"

definition Pool_closed :: "pool \<Rightarrow> bool" where
  "Pool_closed p = (state p = Closed)"

text \<open>Modelled from the spec: opening a Bridge (a fresh handle, healthy, no transaction).\<close>

definition open_bridge :: "nat \<Rightarrow> nat \<Rightarrow> bridge" where
  "open_bridge i t = \<lparr>ident = i, created = t, failed = False, in_tx = False\<rparr>"

text \<open>Modelled from the spec: \<open>create_pool\<close> of \<open>pool.py\<close>. A \<open>maxsize\<close> of \<open>0\<close>
  means unbounded; for any other, construction enforces \<open>minsize \<le> maxsize\<close>.
  \<open>minsize\<close> Bridges are pre-opened.\<close>

definition create_pool :: "nat \<Rightarrow> nat \<Rightarrow> nat \<Rightarrow> int \<Rightarrow> nat \<Rightarrow> exn + pool" where
  "create_pool mn mx tmo rc t =
     (if mx \<noteq> 0 \<and> mx < mn
      then Inl (Exn ValueError ''maxsize should be not less than minsize'' None)
      else Inr \<lparr>minsize = mn, maxsize = mx, timeout = tmo, recycle = rc,
                idle = map (\<lambda>i. open_bridge i t) [0..<mn], in_use = [],
                state = Open, next_ident = mn\<rparr>)"

text \<open>Modelled from the spec: \<open>Pool.acquire\<close> of \<open>pool.py\<close>. An idle Bridge is handed
  out if there is one; otherwise a new one is opened while \<open>size < maxsize\<close>, or
  whenever \<open>maxsize\<close> is \<open>0\<close> (unbounded); otherwise
  the caller waits, and a wait that nothing ends within \<open>timeout\<close> is a
  \<open>TimeoutError\<close>. A caller that is served after a release is the same run with its
  acquire step placed after that release.\<close>

definition Pool_acquire :: "pool \<Rightarrow> nat \<Rightarrow> exn + (bridge \<times> pool)" where
  "Pool_acquire p t =
     (if state p \<noteq> Open then Inl (Exn ClosedError ''pool is closed'' None)
      else case idle p of
        b # bs \<Rightarrow> Inr (b, p\<lparr>idle := bs, in_use := ident b # in_use p\<rparr>)
      | [] \<Rightarrow>
          if maxsize p = 0 \<or> Pool_size p < maxsize p
          then let b = open_bridge (next_ident p) t
               in Inr (b, p\<lparr>in_use := ident b # in_use p, next_ident := Suc (next_ident p)\<rparr>)
          else Inl (Exn TimeoutError ''no connection became available'' None))"

text \<open>Modelled from the spec: the release test of \<open>Pool.release\<close>. Recycling is
  disabled by \<open>-1\<close>; with \<open>recycle = 0\<close> every Bridge handed back is retired (the
  scenario of section 8), so the age must be strictly below \<open>recycle\<close>.\<close>

definition within_recycle :: "pool \<Rightarrow> bridge \<Rightarrow> nat \<Rightarrow> bool" where
  "within_recycle p b t = (recycle p = - 1 \<or> int (t - created b) < recycle p)"

definition healthy :: "bridge \<Rightarrow> bool" where
  "healthy b = (\<not> failed b \<and> \<not> in_tx b)"

text \<open>Modelled from the spec: \<open>Pool.release\<close> of \<open>pool.py\<close>. Handing back a
  Bridge with an open transaction fails loudly and leaves the sets as they are, unless
  the pool is being torn down. Otherwise a Bridge that passes the test goes back to the
  idle set; any other is closed, and a replacement is opened only if the pool is open
  and below \<open>minsize\<close>.\<close>

definition Pool_release :: "pool \<Rightarrow> bridge \<Rightarrow> nat \<Rightarrow> exn + pool" where
  "Pool_release p b t =
     (if in_tx b \<and> state p = Open
      then Inl (Exn InvalidStateError
                 ''cannot release a connection with an unfinished transaction'' None)
      else let p1 = p\<lparr>in_use := remove1 (ident b) (in_use p)\<rparr>
           in Inr (if state p = Open \<and> within_recycle p b t \<and> healthy b
                   then p1\<lparr>idle := idle p1 @ [b]\<rparr>
                   else if Pool_size p1 < minsize p \<and> state p = Open
                        then p1\<lparr>idle := idle p1 @ [open_bridge (next_ident p) t],
                                next_ident := Suc (next_ident p)\<rparr>
                        else p1))"

section \<open>The world the engine runs in\<close>

text \<open>
  An \<open>Engine\<close> holds a reference to its pool, so pools live in a store and the engine
  keeps an address. \<open>asyncio.create_task\<close> puts a coroutine on the running event loop:
  the loop's pending tasks are part of the world, and so is its clock. \<open>history\<close> is
  a history variable, written and never read: every call made on a pool, in order.
\<close>

datatype task = ReleaseTask nat bridge

datatype pool_call = AcquireCall nat | ReleaseCall nat nat

record world =
  pools :: "nat \<Rightarrow> pool"
  next_pool :: nat
  tasks :: "task list"
  running :: bool
  now :: nat
  history :: "pool_call list"

text \<open>\<open>await pool.acquire()\<close> and \<open>await pool.release(raw)\<close> on the pool stored at an
  address.\<close>

definition await_acquire :: "nat \<Rightarrow> world \<Rightarrow> (exn + bridge) \<times> world" where
  "await_acquire a w =
     (let w1 = w\<lparr>history := history w @ [AcquireCall a]\<rparr>
      in case Pool_acquire (pools w a) (now w) of
           Inl e \<Rightarrow> (Inl e, w1)
         | Inr (b, p') \<Rightarrow> (Inr b, w1\<lparr>pools := (pools w)(a := p')\<rparr>))"

definition await_release :: "nat \<Rightarrow> bridge \<Rightarrow> world \<Rightarrow> (exn + unit) \<times> world" where
  "await_release a raw w =
     (let w1 = w\<lparr>history := history w @ [ReleaseCall a (ident raw)]\<rparr>
      in case Pool_release (pools w a) raw (now w) of
           Inl e \<Rightarrow> (Inl e, w1)
         | Inr p' \<Rightarrow> (Inr (), w1\<lparr>pools := (pools w)(a := p')\<rparr>))"

text \<open>The event loop running the tasks it holds, oldest first. An exception raised
  inside a task that nobody awaits stays in the task.\<close>

fun run_task :: "task \<Rightarrow> world \<Rightarrow> world" where
  "run_task (ReleaseTask a raw) w = snd (await_release a raw w)"

definition run_loop :: "world \<Rightarrow> world" where
  "run_loop w = fold run_task (tasks w) (w\<lparr>tasks := []\<rparr>)"

section \<open>The dialect\<close>

text \<open>
  Python values as far as JSON goes, floats left out; a dict is the list of its items,
  with string keys. \<open>json.dumps\<close> (standard library, default arguments) on
  them: strings are quoted and every character outside the printable ASCII range, the
  quote and the backslash are escaped; items are separated by \<open>, \<close> and a key
  from its value by \<open>: \<close>.
\<close>

datatype pyval =
    PNone
  | PBool bool
  | PInt int
  | PStr string
  | PList "pyval list"
  | PDict "(string \<times> pyval) list"

definition digit_char :: "nat \<Rightarrow> char" where
  "digit_char n = ''0123456789abcdef'' ! (n mod 16)"

definition escape_char :: "char \<Rightarrow> string" where
  "escape_char c =
     (if c = CHR 0x22 then [CHR 0x5C, CHR 0x22]
      else if c = CHR 0x5C then [CHR 0x5C, CHR 0x5C]
      else if c = CHR 0x0A then [CHR 0x5C, CHR ''n'']
      else if c = CHR 0x0D then [CHR 0x5C, CHR ''r'']
      else if c = CHR 0x09 then [CHR 0x5C, CHR ''t'']
      else if c = CHR 0x08 then [CHR 0x5C, CHR ''b'']
      else if c = CHR 0x0C then [CHR 0x5C, CHR ''f'']
      else if 32 \<le> (of_char c :: nat) \<and> (of_char c :: nat) \<le> 126 then [c]
      else [CHR 0x5C, CHR ''u'', CHR ''0'', CHR ''0'',
            digit_char ((of_char c :: nat) div 16), digit_char (of_char c :: nat)])"

definition quote :: "string \<Rightarrow> string" where
  "quote s = [CHR 0x22] @ concat (map escape_char s) @ [CHR 0x22]"

function digits :: "nat \<Rightarrow> string" where
  "digits n = (if n < 10 then [digit_char n] else digits (n div 10) @ [digit_char (n mod 10)])"
  by pat_completeness auto
termination
  by (relation "measure id") auto

definition int_repr :: "int \<Rightarrow> string" where
  "int_repr i = (if i < 0 then CHR ''-'' # digits (nat (- i)) else digits (nat i))"

fun join :: "string \<Rightarrow> string list \<Rightarrow> string" where
  "join sep [] = []"
| "join sep [x] = x"
| "join sep (x # y # ys) = x @ sep @ join sep (y # ys)"

fun json_dumps :: "pyval \<Rightarrow> string" where
  "json_dumps PNone = ''null''"
| "json_dumps (PBool b) = (if b then ''true'' else ''false'')"
| "json_dumps (PInt i) = int_repr i"
| "json_dumps (PStr s) = quote s"
| "json_dumps (PList xs) = ''['' @ join '', '' (map json_dumps xs) @ '']''"
| "json_dumps (PDict kvs) =
     ''{'' @ join '', '' (map (\<lambda>kv. quote (fst kv) @ '': '' @ json_dumps (snd kv)) kvs) @ ''}''"

text \<open>\<open>SQLiteDialect_pysqlite\<close> belongs to SQLAlchemy; the engine reads its \<open>name\<close>
  and \<open>driver\<close> and hands it the two JSON callables.\<close>

record dialect =
  name :: string
  driver :: string
  json_serializer :: "pyval \<Rightarrow> pyval"
  json_deserializer :: "pyval \<Rightarrow> pyval"

definition SQLiteDialect_pysqlite :: "(pyval \<Rightarrow> pyval) \<Rightarrow> (pyval \<Rightarrow> pyval) \<Rightarrow> dialect" where
  "SQLiteDialect_pysqlite js jd =
     \<lparr>name = ''sqlite'', driver = ''pysqlite'', json_serializer = js, json_deserializer = jd\<rparr>"

text \<open>\<open>get_dialect\<close>: an argument left out is \<open>None\<close> here and takes the default of
  the signature, \<open>json.dumps\<close> and \<open>lambda x: x\<close>.\<close>

definition get_dialect ::
  "(pyval \<Rightarrow> pyval) option \<Rightarrow> (pyval \<Rightarrow> pyval) option \<Rightarrow> dialect" where
  "get_dialect json_serializer_arg json_deserializer_arg =
     (let js = (case json_serializer_arg of None \<Rightarrow> (\<lambda>x. PStr (json_dumps x)) | Some f \<Rightarrow> f);
          jd = (case json_deserializer_arg of None \<Rightarrow> (\<lambda>x. x) | Some f \<Rightarrow> f)
      in SQLiteDialect_pysqlite js jd)"

text \<open>The module-level \<open>_dialect = get_dialect()\<close>.\<close>

definition module_dialect :: dialect where
  "module_dialect = get_dialect None None"

section \<open>The engine\<close>

record engine =
  engine_dialect :: dialect
  engine_pool :: nat
  engine_dsn :: "string option"

text \<open>\<open>SAConnection\<close> is defined in \<open>.connection\<close>; the engine builds it from the raw
  connection and itself and reads its \<open>connection\<close> and \<open>in_transaction\<close>
  properties.\<close>

record sa_connection =
  connection :: bridge
  in_transaction :: bool
  sa_engine :: engine

definition SAConnection :: "bridge \<Rightarrow> engine \<Rightarrow> sa_connection" where
  "SAConnection raw e = \<lparr>connection = raw, in_transaction = False, sa_engine = e\<rparr>"

definition Engine :: "dialect \<Rightarrow> nat \<Rightarrow> string option \<Rightarrow> engine" where
  "Engine d p dsn = \<lparr>engine_dialect = d, engine_pool = p, engine_dsn = dsn\<rparr>"

definition Engine_name :: "engine \<Rightarrow> string" where
  "Engine_name self = name (engine_dialect self)"

definition Engine_driver :: "engine \<Rightarrow> string" where
  "Engine_driver self = driver (engine_dialect self)"

definition Engine_timeout :: "engine \<Rightarrow> world \<Rightarrow> nat" where
  "Engine_timeout self w = timeout (pools w (engine_pool self))"

definition Engine_minsize :: "engine \<Rightarrow> world \<Rightarrow> nat" where
  "Engine_minsize self w = minsize (pools w (engine_pool self))"

definition Engine_maxsize :: "engine \<Rightarrow> world \<Rightarrow> nat" where
  "Engine_maxsize self w = maxsize (pools w (engine_pool self))"

definition Engine_size :: "engine \<Rightarrow> world \<Rightarrow> nat" where
  "Engine_size self w = Pool_size (pools w (engine_pool self))"

definition Engine_freesize :: "engine \<Rightarrow> world \<Rightarrow> nat" where
  "Engine_freesize self w = Pool_freesize (pools w (engine_pool self))"

definition Engine_closed :: "engine \<Rightarrow> world \<Rightarrow> bool" where
  "Engine_closed self w = Pool_closed (pools w (engine_pool self))"

text \<open>\<open>Engine._acquire\<close>.\<close>

definition Engine_acquire_coro :: "engine \<Rightarrow> world \<Rightarrow> (exn + sa_connection) \<times> world" where
  "Engine_acquire_coro self w =
     (case await_acquire (engine_pool self) w of
        (Inl e, w') \<Rightarrow> (Inl e, w')
      | (Inr raw, w') \<Rightarrow> (Inr (SAConnection raw self), w'))"

text \<open>\<open>Engine.release\<close>. \<open>asyncio.create_task\<close> raises \<open>RuntimeError\<close> when no event
  loop is running; otherwise the pool's release is scheduled and the task returned.\<close>

definition Engine_release :: "engine \<Rightarrow> sa_connection \<Rightarrow> world \<Rightarrow> (exn + task) \<times> world" where
  "Engine_release self conn w =
     (if in_transaction conn
      then (Inl (Exn InvalidRequestError
                  ''Cannot release a connection with not finished transaction'' None), w)
      else let raw = connection conn;
               fut = ReleaseTask (engine_pool self) raw
           in if running w then (Inr fut, w\<lparr>tasks := tasks w @ [fut]\<rparr>)
              else (Inl (Exn RuntimeError ''no running event loop'' None), w))"

text \<open>\<open>Engine.__enter__\<close> always raises; \<open>Engine.__exit__\<close> is \<open>pass\<close> and so
  returns \<open>None\<close>, which is false.\<close>

definition Engine_enter :: "engine \<Rightarrow> exn + engine" where
  "Engine_enter self =
     Inl (Exn RuntimeError
           (CHR 0x22 # ''await'' @ CHR 0x22 # '' should be used as context manager expression'')
           None)"

definition Engine_exit :: "engine \<Rightarrow> exn option \<Rightarrow> exn + bool" where
  "Engine_exit self args = Inr False"

section \<open>The connection context manager\<close>

text \<open>\<open>_ConnectionContextManager\<close>: two slots, either of which may hold \<open>None\<close>.
  \<open>__exit__\<close> calls \<open>self._engine.release(self._conn)\<close> inside \<open>try\<close> and clears both
  slots in \<open>finally\<close>; the call on \<open>None\<close> is Python's \<open>AttributeError\<close>, with the
  interpreter's message. The method returns \<open>None\<close>, which is false.\<close>

record connection_cm =
  cm_engine :: "engine option"
  cm_conn :: "sa_connection option"

definition ConnectionContextManager :: "engine \<Rightarrow> sa_connection \<Rightarrow> connection_cm" where
  "ConnectionContextManager e conn = \<lparr>cm_engine = Some e, cm_conn = Some conn\<rparr>"

definition ConnectionContextManager_enter :: "connection_cm \<Rightarrow> sa_connection option" where
  "ConnectionContextManager_enter self = cm_conn self"

definition no_attribute :: "string \<Rightarrow> string" where
  "no_attribute attr =
     CHR 0x27 # ''NoneType'' @ CHR 0x27 # '' object has no attribute '' @ CHR 0x27 # attr
       @ [CHR 0x27]"

definition release_slot :: "connection_cm \<Rightarrow> world \<Rightarrow> (exn + task) \<times> world" where
  "release_slot self w =
     (case cm_engine self of
        None \<Rightarrow> (Inl (Exn AttributeError (no_attribute ''release'') None), w)
      | Some e \<Rightarrow>
          (case cm_conn self of
             None \<Rightarrow> (Inl (Exn AttributeError (no_attribute ''in_transaction'') None), w)
           | Some c \<Rightarrow> Engine_release e c w))"

definition ConnectionContextManager_exit ::
  "connection_cm \<Rightarrow> exn option \<Rightarrow> world \<Rightarrow> (exn + bool) \<times> connection_cm \<times> world" where
  "ConnectionContextManager_exit self args w =
     (case release_slot self w of
        (Inl e, w') \<Rightarrow> (Inl e, \<lparr>cm_engine = None, cm_conn = None\<rparr>, w')
      | (Inr fut, w') \<Rightarrow> (Inr False, \<lparr>cm_engine = None, cm_conn = None\<rparr>, w'))"

text \<open>\<open>Engine.__await__\<close>: one run of \<open>Engine._acquire\<close>, its connection wrapped.\<close>

definition Engine_await :: "engine \<Rightarrow> world \<Rightarrow> (exn + connection_cm) \<times> world" where
  "Engine_await self w =
     (case Engine_acquire_coro self w of
        (Inl e, w') \<Rightarrow> (Inl e, w')
      | (Inr conn, w') \<Rightarrow> (Inr (ConnectionContextManager self conn), w'))"

section \<open>The with statement\<close>

text \<open>
  Python's \<open>with mgr as v: body\<close>. \<open>__enter__\<close> runs first, and if it raises neither
  the body nor \<open>__exit__\<close> runs. \<open>__exit__\<close> runs once after the body, with the body's
  exception if there is one. An exception raised by \<open>__exit__\<close> is the one that
  leaves the statement, and the interpreter makes the body's exception its
  \<open>__context__\<close>. If \<open>__exit__\<close> returns, a true value swallows the body's exception
  and a false one lets it through.
\<close>

definition with_stmt ::
  "('m \<Rightarrow> 's \<Rightarrow> (exn + 'v) \<times> 'm \<times> 's) \<Rightarrow>
   ('m \<Rightarrow> exn option \<Rightarrow> 's \<Rightarrow> (exn + bool) \<times> 'm \<times> 's) \<Rightarrow>
   ('v \<Rightarrow> 's \<Rightarrow> (exn + unit) \<times> 's) \<Rightarrow> 'm \<Rightarrow> 's \<Rightarrow> (exn + unit) \<times> 'm \<times> 's" where
  "with_stmt enter exit body m w =
     (case enter m w of
        (Inl e, m1, w1) \<Rightarrow> (Inl e, m1, w1)
      | (Inr v, m1, w1) \<Rightarrow>
          (case body v w1 of
             (Inr u, w2) \<Rightarrow>
               (case exit m1 None w2 of
                  (Inl e2, m3, w3) \<Rightarrow> (Inl e2, m3, w3)
                | (Inr suppress, m3, w3) \<Rightarrow> (Inr (), m3, w3))
           | (Inl e1, w2) \<Rightarrow>
               (case exit m1 (Some e1) w2 of
                  (Inl e2, m3, w3) \<Rightarrow> (Inl (set_context e2 e1), m3, w3)
                | (Inr suppress, m3, w3) \<Rightarrow>
                    (if suppress then Inr () else Inl e1, m3, w3))))"

text \<open>\<open>with cm as conn: body\<close> for a connection context manager, and \<open>with engine:\<close>
  for an engine.\<close>

definition with_connection ::
  "(sa_connection option \<Rightarrow> world \<Rightarrow> (exn + unit) \<times> world) \<Rightarrow> connection_cm \<Rightarrow> world \<Rightarrow>
   (exn + unit) \<times> connection_cm \<times> world" where
  "with_connection body cm w =
     with_stmt (\<lambda>m s. (Inr (ConnectionContextManager_enter m), m, s))
               ConnectionContextManager_exit body cm w"

definition with_engine ::
  "(engine \<Rightarrow> world \<Rightarrow> (exn + unit) \<times> world) \<Rightarrow> engine \<Rightarrow> world \<Rightarrow>
   (exn + unit) \<times> engine \<times> world" where
  "with_engine body e w =
     with_stmt (\<lambda>m s. (Engine_enter m, m, s)) (\<lambda>m args s. (Engine_exit m args, m, s)) body e w"

section \<open>Creating an engine\<close>

text \<open>\<open>_create_engine\<close>: the pool is created and stored, one connection is acquired,
  and it is released in \<open>finally\<close> around the construction of the \<open>Engine\<close>; an
  exception of that release replaces the value returned.
  \<open>create_engine\<close> wraps that coroutine; a \<open>dialect\<close> argument left out is \<open>None\<close>
  here and takes the module's \<open>_dialect\<close>.\<close>

definition create_engine_coro ::
  "string option \<Rightarrow> nat \<Rightarrow> nat \<Rightarrow> dialect \<Rightarrow> nat \<Rightarrow> int \<Rightarrow> world \<Rightarrow> (exn + engine) \<times> world" where
  "create_engine_coro dsn mn mx d tmo pool_recycle w =
     (case create_pool mn mx tmo pool_recycle (now w) of
        Inl e \<Rightarrow> (Inl e, w)
      | Inr p \<Rightarrow>
          (let a = next_pool w;
               w1 = w\<lparr>pools := (pools w)(a := p), next_pool := Suc a\<rparr>
           in case await_acquire a w1 of
                (Inl e, w2) \<Rightarrow> (Inl e, w2)
              | (Inr conn, w2) \<Rightarrow>
                  (case await_release a conn w2 of
                     (Inl e, w3) \<Rightarrow> (Inl e, w3)
                   | (Inr u, w3) \<Rightarrow> (Inr (Engine d a dsn), w3))))"

definition create_engine ::
  "string option \<Rightarrow> nat \<Rightarrow> nat \<Rightarrow> dialect option \<Rightarrow> nat \<Rightarrow> int \<Rightarrow> world \<Rightarrow>
   (exn + engine) \<times> world" where
  "create_engine dsn mn mx dialect_arg tmo pool_recycle w =
     create_engine_coro dsn mn mx
       (case dialect_arg of None \<Rightarrow> module_dialect | Some d \<Rightarrow> d) tmo pool_recycle w"

section \<open>The acquisition wrapper\<close>

text \<open>Modelled from the spec: \<open>_PoolAcquireContextManager\<close> of \<open>utils.py\<close>, which
  \<open>engine.py\<close> imports and names \<open>_EngineAcquireContextManager\<close>. Section 4.4 and the
  design notes make it a tagged wrapper around one pending acquisition with two
  operations, resolve and scoped enter/exit; entering reuses a value already acquired,
  and exiting releases what the wrapper holds.\<close>

datatype acquisition = Pending | Done "exn + sa_connection"

record acquire_cm =
  acm_coro :: acquisition
  acm_obj :: "sa_connection option"
  acm_engine :: engine

text \<open>\<open>Engine.acquire\<close>: \<open>self._acquire()\<close> only creates the coroutine; nothing of it
  has run when the wrapper is returned.\<close>

definition Engine_acquire :: "engine \<Rightarrow> acquire_cm" where
  "Engine_acquire self = \<lparr>acm_coro = Pending, acm_obj = None, acm_engine = self\<rparr>"

text \<open>Modelled from the spec: the wrapper's resolve, scoped enter and scoped exit
  (\<open>utils.py\<close>).\<close>

definition acm_resolve :: "acquire_cm \<Rightarrow> world \<Rightarrow> (exn + sa_connection) \<times> acquire_cm \<times> world" where
  "acm_resolve cm w =
     (case acm_coro cm of
        Done r \<Rightarrow> (r, cm, w)
      | Pending \<Rightarrow>
          (case Engine_acquire_coro (acm_engine cm) w of
             (r, w') \<Rightarrow> (r, cm\<lparr>acm_coro := Done r\<rparr>, w')))"

definition acm_enter :: "acquire_cm \<Rightarrow> world \<Rightarrow> (exn + sa_connection) \<times> acquire_cm \<times> world" where
  "acm_enter cm w =
     (case acm_resolve cm w of
        (Inl e, cm1, w1) \<Rightarrow> (Inl e, cm1, w1)
      | (Inr c, cm1, w1) \<Rightarrow> (Inr c, cm1\<lparr>acm_obj := Some c\<rparr>, w1))"

definition acm_exit :: "acquire_cm \<Rightarrow> world \<Rightarrow> (exn + unit) \<times> acquire_cm \<times> world" where
  "acm_exit cm w =
     (case acm_obj cm of
        None \<Rightarrow> (Inr (), cm, w)
      | Some c \<Rightarrow>
          (case Engine_release (acm_engine cm) c w of
             (Inl e, w') \<Rightarrow> (Inl e, cm\<lparr>acm_obj := None\<rparr>, w')
           | (Inr fut, w') \<Rightarrow> (Inr (), cm\<lparr>acm_obj := None\<rparr>, w')))"

text \<open>Modelled from the spec: entering the wrapper of \<open>utils.py\<close> with a plain
  \<open>with\<close>, without awaiting it. Section 4.4 makes that misuse a loud failure with a
  descriptive error, of the kind \<open>InvalidStateError\<close> by section 7; nothing is
  acquired and the wrapper is left as it was.\<close>

definition acm_sync_enter ::
  "acquire_cm \<Rightarrow> world \<Rightarrow> (exn + sa_connection) \<times> acquire_cm \<times> world" where
  "acm_sync_enter cm w =
     (Inl (Exn InvalidStateError ''the wrapper must be awaited or entered with async with'' None),
      cm, w)"

text \<open>Any number of uses of one wrapper, in any order.\<close>

datatype acm_op = Resolve | Enter | Exit

fun acm_step :: "acm_op \<Rightarrow> acquire_cm \<times> world \<Rightarrow> acquire_cm \<times> world" where
  "acm_step Resolve (cm, w) = snd (acm_resolve cm w)"
| "acm_step Enter (cm, w) = snd (acm_enter cm w)"
| "acm_step Exit (cm, w) = snd (acm_exit cm w)"

text \<open>Any number of entries and exits of one connection context manager.\<close>

datatype cm_op = CmEnter | CmExit

fun cm_step :: "cm_op \<Rightarrow> connection_cm \<times> world \<Rightarrow> connection_cm \<times> world" where
  "cm_step CmEnter (cm, w) = (cm, w)"
| "cm_step CmExit (cm, w) = snd (ConnectionContextManager_exit cm None w)"

fun is_acquire :: "pool_call \<Rightarrow> bool" where
  "is_acquire (AcquireCall a) = True"
| "is_acquire (ReleaseCall a i) = False"

definition acquisitions :: "world \<Rightarrow> nat" where
  "acquisitions w = length (filter is_acquire (history w))"

text \<open>One while the wrapped acquisition has not been started, zero afterwards.\<close>

definition pending :: "acquire_cm \<Rightarrow> nat" where
  "pending cm = (case acm_coro cm of Pending \<Rightarrow> 1 | Done r \<Rightarrow> 0)"

section \<open>Runs of a pool\<close>

text \<open>A run of acquire and release steps on one pool, each at its own time. A step
  that fails leaves the pool as it was.\<close>

datatype pool_op = Acquire | Release bridge

fun pool_step :: "pool \<Rightarrow> nat \<times> pool_op \<Rightarrow> pool" where
  "pool_step p (t, Acquire) = (case Pool_acquire p t of Inl e \<Rightarrow> p | Inr (b, p') \<Rightarrow> p')"
| "pool_step p (t, Release b) = (case Pool_release p b t of Inl e \<Rightarrow> p | Inr p' \<Rightarrow> p')"

definition run_pool :: "pool \<Rightarrow> (nat \<times> pool_op) list \<Rightarrow> pool" where
  "run_pool p ops = foldl pool_step p ops"

text \<open>A run in which every release step hands back a Bridge that is checked out at
  that step.\<close>

fun valid_run :: "pool \<Rightarrow> (nat \<times> pool_op) list \<Rightarrow> bool" where
  "valid_run p [] = True"
| "valid_run p ((t, Acquire) # ops) = valid_run (pool_step p (t, Acquire)) ops"
| "valid_run p ((t, Release b) # ops) =
     (ident b \<in> set (in_use p) \<and> valid_run (pool_step p (t, Release b)) ops)"

section \<open>The Bridge's queue and worker\<close>

text \<open>Modelled from the spec: the operation queue and the worker of a Bridge
  (\<open>core.py\<close>), sections 4.1 and 4.2. Submitting appends to the tail unless the Bridge
  is closing; the one worker takes the head only when it is not executing anything, and
  fulfils the result slot of what it executes before it takes again. Callers and worker
  interleave in any order: a run is a list of events.\<close>

record 'op worker =
  queue :: "'op list"
  executing :: "'op list"
  fulfilled :: "'op list"
  closing :: bool

datatype 'op bridge_event = Submit 'op | Take | Finish | Close

fun bridge_step :: "'op worker \<Rightarrow> 'op bridge_event \<Rightarrow> 'op worker" where
  "bridge_step s (Submit x) = (if closing s then s else s\<lparr>queue := queue s @ [x]\<rparr>)"
| "bridge_step s Take =
     (case (executing s, queue s) of
        ([], x # q) \<Rightarrow> s\<lparr>queue := q, executing := [x]\<rparr>
      | _ \<Rightarrow> s)"
| "bridge_step s Finish =
     (case executing s of
        [] \<Rightarrow> s
      | x # xs \<Rightarrow> s\<lparr>executing := xs, fulfilled := fulfilled s @ [x]\<rparr>)"
| "bridge_step s Close = s\<lparr>closing := True\<rparr>"

definition new_worker :: "'op worker" where
  "new_worker = \<lparr>queue = [], executing = [], fulfilled = [], closing = False\<rparr>"

definition run_bridge :: "'op worker \<Rightarrow> 'op bridge_event list \<Rightarrow> 'op worker" where
  "run_bridge s evs = foldl bridge_step s evs"

text \<open>The operations a run submits, in submission order: those handed in before the
  Bridge was told to close (a later one fails at once and gets no result slot).\<close>

fun submitted :: "bool \<Rightarrow> 'op bridge_event list \<Rightarrow> 'op list" where
  "submitted c [] = []"
| "submitted c (Submit x # evs) = (if c then submitted c evs else x # submitted c evs)"
| "submitted c (Close # evs) = submitted True evs"
| "submitted c (Take # evs) = submitted c evs"
| "submitted c (Finish # evs) = submitted c evs"

section \<open>Example values\<close>

definition example_pool :: pool where
  "example_pool =
     \<lparr>minsize = 1, maxsize = 2, timeout = 60, recycle = - 1,
      idle = [], in_use = [0], state = Open, next_ident = 1\<rparr>"

definition fresh_pool :: pool where
  "fresh_pool =
     \<lparr>minsize = 1, maxsize = 2, timeout = 60, recycle = - 1,
      idle = [open_bridge 0 0], in_use = [], state = Open, next_ident = 1\<rparr>"

definition example_world :: world where
  "example_world =
     \<lparr>pools = (\<lambda>a. example_pool), next_pool = 1, tasks = [], running = True, now = 5,
      history = []\<rparr>"

definition example_engine :: engine where
  "example_engine = Engine module_dialect 0 None"

definition example_conn :: "bool \<Rightarrow> sa_connection" where
  "example_conn in_trans =
     \<lparr>connection = open_bridge 0 0, in_transaction = in_trans, sa_engine = example_engine\<rparr>"

section \<open>Releasing a connection that is in a transaction\<close>

text \<open>
  C1. For every connection whose \<open>in_transaction\<close> flag is true, \<open>Engine.release\<close>
  raises \<open>InvalidRequestError\<close> (the invalid-state error of the specification) before
  anything is done with the pool: the world is returned as it was, so no pool call was
  made, no release task is scheduled, and the pool's idle and in-use sets, its size
  and its freesize are what they were, also after the event loop has run what it
  holds. Neither a commit nor a rollback is issued.
\<close>

theorem Engine_release_in_transaction:
  assumes "in_transaction conn"
  shows "fst (Engine_release self conn w) =
           Inl (Exn InvalidRequestError
                 ''Cannot release a connection with not finished transaction'' None)
       \<and> snd (Engine_release self conn w) = w
       \<and> idle (pools (snd (Engine_release self conn w)) a) = idle (pools w a)
       \<and> in_use (pools (snd (Engine_release self conn w)) a) = in_use (pools w a)
       \<and> Pool_size (pools (snd (Engine_release self conn w)) a) = Pool_size (pools w a)
       \<and> Pool_freesize (pools (snd (Engine_release self conn w)) a) = Pool_freesize (pools w a)
       \<and> run_loop (snd (Engine_release self conn w)) = run_loop w"
  using assms by (simp add: Engine_release_def)

theorem Engine_release_in_transaction_witness:
  "in_transaction (example_conn True)
   \<and> fst (Engine_release example_engine (example_conn True) example_world) =
       Inl (Exn InvalidRequestError
             ''Cannot release a connection with not finished transaction'' None)
   \<and> snd (Engine_release example_engine (example_conn True) example_world) = example_world
   \<and> run_loop (snd (Engine_release example_engine (example_conn True) example_world)) =
       run_loop example_world"
  using Engine_release_in_transaction [of "example_conn True" example_engine example_world 0]
  by (simp add: example_conn_def)

section \<open>Leaving a scoped block\<close>



section \<open>Entering a wrapper synchronously\<close>

text \<open>
  C6, amended. For every engine, \<open>Engine.__enter__\<close> raises \<open>RuntimeError\<close> with the
  message \<open>"await" should be used as context manager expression\<close> and never returns
  a value, so \<open>with engine: body\<close> raises that error for every body, the body does
  not run and the world is untouched. Entering the acquisition wrapper with a plain
  \<open>with\<close> raises too and leaves wrapper and world as they were. The connection
  context manager is the exception: its \<open>__enter__\<close> never raises, and yields
  whatever the connection slot holds.
\<close>

theorem synchronous_enter_outcomes:
  "Engine_enter self =
     Inl (Exn RuntimeError
           (CHR 0x22 # ''await'' @ CHR 0x22 # '' should be used as context manager expression'')
           None)
   \<and> isl (Engine_enter self)
   \<and> with_engine body self w =
       (Inl (Exn RuntimeError
              (CHR 0x22 # ''await'' @ CHR 0x22 # '' should be used as context manager expression'')
              None), self, w)
   \<and> isl (fst (acm_sync_enter acm w))
   \<and> snd (acm_sync_enter acm w) = (acm, w)
   \<and> ConnectionContextManager_enter ccm = cm_conn ccm"
  by (simp add: Engine_enter_def with_engine_def with_stmt_def acm_sync_enter_def
      ConnectionContextManager_enter_def)

text \<open>
  C6 as stated fails for the connection context manager: once it has been exited,
  entering it again with a plain \<open>with\<close>, with no acquisition in between, raises
  nothing and yields \<open>None\<close>; the body runs with \<open>None\<close>, and here its own error
  is what the later exit finds in flight.
\<close>

theorem cleared_wrapper_enters_counterexample:
  "ConnectionContextManager_enter
     (fst (snd (ConnectionContextManager_exit
                  (ConnectionContextManager example_engine (example_conn False)) None
                  example_world))) = None
   \<and> fst (with_connection
            (\<lambda>v s. (if v = None then Inl (Exn BodyError ''entered with None'' None)
                     else Inr (), s))
            (fst (snd (ConnectionContextManager_exit
                         (ConnectionContextManager example_engine (example_conn False)) None
                         example_world)))
            example_world) =
       Inl (Exn AttributeError (no_attribute ''release'')
             (Some (Exn BodyError ''entered with None'' None)))"
  by (simp add: with_connection_def with_stmt_def ConnectionContextManager_def
      ConnectionContextManager_enter_def ConnectionContextManager_exit_def release_slot_def
      Engine_release_def example_conn_def example_world_def
      split: prod.splits sum.splits)

section \<open>The engine's read-only properties\<close>

text \<open>
  C8. For every engine and every state of the pool it refers to, \<open>size\<close>,
  \<open>freesize\<close>, \<open>minsize\<close>, \<open>maxsize\<close>, \<open>timeout\<close> and \<open>closed\<close> of the engine are
  the pool's property of the same name, whatever the engine's dialect and dsn are;
  \<open>name\<close> and \<open>driver\<close> are the dialect's, \<open>sqlite\<close> and \<open>pysqlite\<close> for a
  dialect built by \<open>get_dialect\<close>.
\<close>

theorem Engine_properties_delegate:
  "Engine_size (Engine d a dsn) w = Pool_size (pools w a)
   \<and> Engine_freesize (Engine d a dsn) w = Pool_freesize (pools w a)
   \<and> Engine_minsize (Engine d a dsn) w = minsize (pools w a)
   \<and> Engine_maxsize (Engine d a dsn) w = maxsize (pools w a)
   \<and> Engine_timeout (Engine d a dsn) w = timeout (pools w a)
   \<and> Engine_closed (Engine d a dsn) w = Pool_closed (pools w a)
   \<and> Engine_name (Engine d a dsn) = name d
   \<and> Engine_driver (Engine d a dsn) = driver d
   \<and> Engine_name (Engine (get_dialect js jd) a dsn) = ''sqlite''
   \<and> Engine_driver (Engine (get_dialect js jd) a dsn) = ''pysqlite''"
  by (simp add: Engine_def Engine_size_def Engine_freesize_def Engine_minsize_def
      Engine_maxsize_def Engine_timeout_def Engine_closed_def Engine_name_def Engine_driver_def
      get_dialect_def SQLiteDialect_pysqlite_def)

section \<open>After the scoped exit\<close>

text \<open>
  C10. For every connection context manager, every argument tuple and every world,
  after \<open>__exit__\<close> has run, whether the release succeeded or raised, both slots are
  \<open>None\<close>. Entering again yields \<open>None\<close>, and a second exit raises
  \<open>AttributeError\<close> without touching the world: no connection is released again.
\<close>

theorem exit_clears_both_slots:
  "fst (snd (ConnectionContextManager_exit self args w)) = \<lparr>cm_engine = None, cm_conn = None\<rparr>
   \<and> ConnectionContextManager_enter (fst (snd (ConnectionContextManager_exit self args w))) = None
   \<and> ConnectionContextManager_exit (fst (snd (ConnectionContextManager_exit self args w))) args' w' =
       (Inl (Exn AttributeError (no_attribute ''release'') None),
        \<lparr>cm_engine = None, cm_conn = None\<rparr>, w')"
  by (simp add: ConnectionContextManager_exit_def ConnectionContextManager_enter_def
      release_slot_def split: prod.splits sum.splits)

section \<open>Order of completion on one Bridge\<close>

lemma bridge_step_order:
  "fulfilled (bridge_step s ev) @ executing (bridge_step s ev) @ queue (bridge_step s ev) =
     fulfilled s @ executing s @ queue s @ submitted (closing s) [ev]"
  by (cases ev) (auto split: list.splits)

lemma bridge_step_closing:
  "closing (bridge_step s ev) = (closing s \<or> ev = Close)"
  by (cases ev) (auto split: list.splits)


lemma run_bridge_order:
  "fulfilled (run_bridge s evs) @ executing (run_bridge s evs) @ queue (run_bridge s evs) =
     fulfilled s @ executing s @ queue s @ submitted (closing s) evs"
proof (induction evs arbitrary: s)
  case Nil
  then show ?case by (simp add: run_bridge_def)
next
  case (Cons ev evs)
  have "run_bridge s (ev # evs) = run_bridge (bridge_step s ev) evs"
    by (simp add: run_bridge_def)
  then show ?case
    using Cons [of "bridge_step s ev"] bridge_step_order [of s ev] bridge_step_closing [of s ev]
    by (cases ev) (auto split: list.splits)
qed

lemma bridge_step_one: "length (executing s) \<le> 1 \<Longrightarrow> length (executing (bridge_step s ev)) \<le> 1"
  by (cases ev) (auto split: list.splits)

lemma run_bridge_one: "length (executing s) \<le> 1 \<Longrightarrow> length (executing (run_bridge s evs)) \<le> 1"
proof (induction evs arbitrary: s)
  case Nil
  then show ?case by (simp add: run_bridge_def)
next
  case (Cons ev evs)
  from Cons.IH [OF bridge_step_one [OF Cons.prems]] show ?case
    by (simp add: run_bridge_def)
qed

text \<open>
  C3. For every interleaving of submissions (by any callers), worker steps and a close
  on one Bridge, the operations whose result slots are fulfilled, followed by the one
  executing and the ones still queued, are the submitted operations in submission
  order: slots are fulfilled in the order of submission. At every moment at most one
  operation is executing against the handle.
\<close>

theorem bridge_fifo:
  "fulfilled (run_bridge new_worker evs) @ executing (run_bridge new_worker evs)
     @ queue (run_bridge new_worker evs) = submitted False evs
   \<and> take (length (fulfilled (run_bridge new_worker evs))) (submitted False evs) =
       fulfilled (run_bridge new_worker evs)
   \<and> length (executing (run_bridge new_worker evs)) \<le> 1"
proof -
  have order: "fulfilled (run_bridge new_worker evs) @ executing (run_bridge new_worker evs)
     @ queue (run_bridge new_worker evs) = submitted False evs"
    using run_bridge_order [of new_worker evs] by (simp add: new_worker_def)
  have "take (length (fulfilled (run_bridge new_worker evs)))
          (fulfilled (run_bridge new_worker evs) @ executing (run_bridge new_worker evs)
           @ queue (run_bridge new_worker evs)) = fulfilled (run_bridge new_worker evs)"
    by simp
  with order have prefix: "take (length (fulfilled (run_bridge new_worker evs)))
      (submitted False evs) = fulfilled (run_bridge new_worker evs)"
    by simp
  have "length (executing (run_bridge new_worker evs)) \<le> 1"
    using run_bridge_one [of new_worker evs] by (simp add: new_worker_def)
  with order prefix show ?thesis by simp
qed

section \<open>Bounds on the size of a pool\<close>

lemma create_pool_facts:
  assumes "create_pool mn mx tmo rc t = Inr p0"
  shows "state p0 = Open \<and> minsize p0 = mn \<and> maxsize p0 = mx \<and> (mx = 0 \<or> mn \<le> mx)
         \<and> Pool_size p0 = mn"
  using assms by (auto simp: create_pool_def Pool_size_def split: if_splits)

lemma Pool_acquire_params:
  assumes "Pool_acquire p t = Inr (b, p')"
  shows "state p' = state p \<and> minsize p' = minsize p \<and> maxsize p' = maxsize p"
  using assms by (auto simp: Pool_acquire_def Let_def split: if_splits list.splits)

lemma Pool_acquire_grows:
  assumes "Pool_acquire p t = Inr (b, p')"
  shows "Pool_size p \<le> Pool_size p'"
  using assms by (auto simp: Pool_acquire_def Pool_size_def Let_def split: if_splits list.splits)

lemma Pool_acquire_upper:
  assumes "Pool_acquire p t = Inr (b, p')" "Pool_size p \<le> maxsize p" "0 < maxsize p"
  shows "Pool_size p' \<le> maxsize p"
  using assms by (auto simp: Pool_acquire_def Pool_size_def Let_def split: if_splits list.splits)

lemma Pool_release_params:
  assumes "Pool_release p b t = Inr p'"
  shows "state p' = state p \<and> minsize p' = minsize p \<and> maxsize p' = maxsize p"
  using assms by (auto simp: Pool_release_def Let_def split: if_splits)

lemma Pool_release_upper:
  assumes "Pool_release p b t = Inr p'" "ident b \<in> set (in_use p)" "Pool_size p \<le> maxsize p"
  shows "Pool_size p' \<le> maxsize p"
proof -
  from assms(2) have "0 < length (in_use p)" by (cases "in_use p") auto
  with assms(2) have "Suc (length (remove1 (ident b) (in_use p))) = length (in_use p)"
    by (simp add: length_remove1)
  with assms(1,3) show ?thesis
    by (auto simp: Pool_release_def Pool_size_def Let_def split: if_splits)
qed

lemma Pool_release_lower:
  assumes "Pool_release p b t = Inr p'" "state p = Open" "0 < minsize p"
  shows "0 < Pool_size p'"
  using assms by (auto simp: Pool_release_def Pool_size_def Let_def split: if_splits)

lemma pool_step_params:
  "state (pool_step p stp) = state p \<and> minsize (pool_step p stp) = minsize p
   \<and> maxsize (pool_step p stp) = maxsize p"
proof (cases stp)
  case (Pair t op)
  show ?thesis
  proof (cases op)
    case Acquire
    with Pair show ?thesis
      by (auto split: sum.splits dest: Pool_acquire_params)
  next
    case (Release b)
    with Pair show ?thesis
      by (auto split: sum.splits dest: Pool_release_params)
  qed
qed

lemma pool_step_lower:
  assumes "state p = Open" "0 < minsize p" "0 < Pool_size p"
  shows "0 < Pool_size (pool_step p stp)"
proof (cases stp)
  case (Pair t op)
  show ?thesis
  proof (cases op)
    case Acquire
    with Pair assms show ?thesis
      by (auto split: sum.splits dest: Pool_acquire_grows)
  next
    case (Release b)
    with Pair assms show ?thesis
      by (auto split: sum.splits dest: Pool_release_lower)
  qed
qed

lemma run_pool_params:
  "state (run_pool p ops) = state p \<and> minsize (run_pool p ops) = minsize p
   \<and> maxsize (run_pool p ops) = maxsize p"
proof (induction ops arbitrary: p)
  case Nil
  then show ?case by (simp add: run_pool_def)
next
  case (Cons stp ops)
  have "run_pool p (stp # ops) = run_pool (pool_step p stp) ops" by (simp add: run_pool_def)
  with Cons [of "pool_step p stp"] pool_step_params [of p stp] show ?case by simp
qed

lemma run_pool_lower:
  assumes "state p = Open" "0 < minsize p" "0 < Pool_size p"
  shows "0 < Pool_size (run_pool p ops)"
  using assms
proof (induction ops arbitrary: p)
  case Nil
  then show ?case by (simp add: run_pool_def)
next
  case (Cons stp ops)
  let ?q = "pool_step p stp"
  have q: "state ?q = Open" "0 < minsize ?q" "0 < Pool_size ?q"
    using Cons.prems pool_step_params [of p stp] pool_step_lower [of p stp] by simp_all
  have "run_pool p (stp # ops) = run_pool ?q ops" by (simp add: run_pool_def)
  with Cons.IH [OF q] show ?case by simp
qed

lemma run_pool_upper:
  assumes "valid_run p ops" "Pool_size p \<le> maxsize p" "0 < maxsize p"
  shows "Pool_size (run_pool p ops) \<le> maxsize p"
  using assms
proof (induction p ops rule: valid_run.induct)
  case (1 p)
  then show ?case by (simp add: run_pool_def)
next
  case (2 p t ops)
  let ?q = "pool_step p (t, Acquire)"
  have size: "Pool_size ?q \<le> maxsize p"
    using "2.prems" by (auto split: sum.splits dest: Pool_acquire_upper)
  have mx: "maxsize ?q = maxsize p" using pool_step_params [of p "(t, Acquire)"] by simp
  have "run_pool p ((t, Acquire) # ops) = run_pool ?q ops" by (simp add: run_pool_def)
  with "2.IH" "2.prems" size mx show ?case by simp
next
  case (3 p t b ops)
  let ?q = "pool_step p (t, Release b)"
  have size: "Pool_size ?q \<le> maxsize p"
    using "3.prems" by (auto split: sum.splits dest: Pool_release_upper)
  have mx: "maxsize ?q = maxsize p" using pool_step_params [of p "(t, Release b)"] by simp
  have "run_pool p ((t, Release b) # ops) = run_pool ?q ops" by (simp add: run_pool_def)
  with "3.IH" "3.prems" size mx show ?case by simp
qed

text \<open>
  C4, amended. Construction fails exactly when \<open>maxsize\<close> is not \<open>0\<close> and
  \<open>maxsize < minsize\<close>. For every pool constructed and every run of acquire and
  release steps on it: if \<open>minsize\<close> is positive, \<open>size\<close> stays positive; and if
  \<open>maxsize\<close> is positive (the pool is bounded) and every release step hands back a
  Bridge that is checked out at that step, then \<open>minsize \<le> maxsize\<close> and \<open>size\<close>
  never exceeds \<open>maxsize\<close>.
\<close>

theorem pool_size_bounds:
  "isl (create_pool mn mx tmo rc t) = (mx \<noteq> 0 \<and> mx < mn)
   \<and> (\<forall>p0. create_pool mn mx tmo rc t = Inr p0 \<longrightarrow>
         maxsize (run_pool p0 ops) = mx
         \<and> (0 < mn \<longrightarrow> 0 < Pool_size (run_pool p0 ops))
         \<and> (0 < mx \<and> valid_run p0 ops \<longrightarrow>
               mn \<le> mx \<and> Pool_size (run_pool p0 ops) \<le> maxsize (run_pool p0 ops)))"
proof -
  have "isl (create_pool mn mx tmo rc t) = (mx \<noteq> 0 \<and> mx < mn)"
    by (simp add: create_pool_def)
  moreover have "maxsize (run_pool p0 ops) = mx
         \<and> (0 < mn \<longrightarrow> 0 < Pool_size (run_pool p0 ops))
         \<and> (0 < mx \<and> valid_run p0 ops \<longrightarrow>
               mn \<le> mx \<and> Pool_size (run_pool p0 ops) \<le> maxsize (run_pool p0 ops))"
    if "create_pool mn mx tmo rc t = Inr p0" for p0
  proof -
    note f = create_pool_facts [OF that]
    have a: "maxsize (run_pool p0 ops) = mx" using f run_pool_params [of p0 ops] by simp
    have b: "0 < Pool_size (run_pool p0 ops)" if "0 < mn"
      using f that run_pool_lower [of p0 ops] by simp
    have c: "mn \<le> mx \<and> Pool_size (run_pool p0 ops) \<le> maxsize (run_pool p0 ops)"
      if "0 < mx" "valid_run p0 ops"
      using f that a run_pool_upper [of p0 ops] by auto
    from a b c show ?thesis by blast
  qed
  ultimately show ?thesis by blast
qed

theorem pool_size_bounds_witness:
  "isl (create_pool 1 2 60 (- 1) 0) = ((2::nat) \<noteq> 0 \<and> (2::nat) < 1)
   \<and> create_pool 1 2 60 (- 1) 0 = Inr fresh_pool
   \<and> (0::nat) < 1 \<and> (0::nat) < 2
   \<and> valid_run fresh_pool
        [(1, Acquire), (2, Acquire), (3, Acquire), (4, Release (open_bridge 0 0))]
   \<and> 0 < Pool_size (run_pool fresh_pool
            [(1, Acquire), (2, Acquire), (3, Acquire), (4, Release (open_bridge 0 0))])
   \<and> Pool_size (run_pool fresh_pool
            [(1, Acquire), (2, Acquire), (3, Acquire), (4, Release (open_bridge 0 0))]) \<le> 2"
proof -
  have c: "create_pool 1 2 60 (- 1) 0 = Inr fresh_pool"
    by (simp add: create_pool_def fresh_pool_def)
  have v: "valid_run fresh_pool
        [(1, Acquire), (2, Acquire), (3, Acquire), (4, Release (open_bridge 0 0))]"
    by (simp add: fresh_pool_def Pool_acquire_def Pool_size_def open_bridge_def)
  from c v pool_size_bounds [of 1 2 60 "- 1" 0
      "[(1, Acquire), (2, Acquire), (3, Acquire), (4, Release (open_bridge 0 0))]"]
  show ?thesis by simp
qed

text \<open>
  C4 as stated fails. With \<open>minsize = 0\<close> and \<open>maxsize = 1\<close> the pool is constructed
  and its size is \<open>0\<close>. With \<open>minsize = 0\<close> and \<open>maxsize = 0\<close> the pool is
  unbounded, and one acquire makes its size \<open>1\<close>, above \<open>maxsize\<close>. And
  \<open>minsize = 1\<close> with \<open>maxsize = 0\<close> is constructed although \<open>minsize\<close> exceeds
  \<open>maxsize\<close>.
\<close>

theorem pool_size_invariant_counterexample:
  "(0::nat) \<le> 1 \<and> \<not> isl (create_pool 0 1 60 (- 1) 0)
   \<and> \<not> 0 < Pool_size (run_pool (projr (create_pool 0 1 60 (- 1) 0)) [])
   \<and> (0::nat) \<le> 0 \<and> \<not> isl (create_pool 0 0 60 (- 1) 0)
   \<and> \<not> Pool_size (run_pool (projr (create_pool 0 0 60 (- 1) 0)) [(1, Acquire)])
         \<le> maxsize (run_pool (projr (create_pool 0 0 60 (- 1) 0)) [(1, Acquire)])
   \<and> \<not> isl (create_pool 1 0 60 (- 1) 0) \<and> \<not> (1::nat) \<le> 0"
  by (simp add: create_pool_def run_pool_def Pool_size_def Pool_acquire_def Let_def
      open_bridge_def)

text \<open>Why the bound is stated for runs that release checked-out Bridges only: handed a
  Bridge that is not checked out, the release adds it to the idle set all the same.\<close>

lemma release_twice_exceeds_maxsize:
  "Pool_size (run_pool (projr (create_pool 1 1 60 (- 1) 0))
     [(1, Acquire), (2, Release (open_bridge 0 0)), (3, Release (open_bridge 0 0))]) = 2"
  by (simp add: create_pool_def run_pool_def Pool_size_def Pool_acquire_def Pool_release_def
      open_bridge_def within_recycle_def healthy_def)

section \<open>Acquire followed by release\<close>

text \<open>
  C5, amended. For every pool with an idle Bridge, an acquire that succeeds followed
  at once by the release of the Bridge it handed out, the Bridge being healthy and
  within the recycle age, leaves \<open>size\<close> and \<open>freesize\<close> as they were before the
  pair; the release succeeds.
\<close>

theorem acquire_release_net_zero:
  assumes "idle p \<noteq> []" "Pool_acquire p t = Inr (b, p1)" "within_recycle p1 b t'" "healthy b"
  shows "\<not> isl (Pool_release p1 b t')
         \<and> Pool_size (projr (Pool_release p1 b t')) = Pool_size p
         \<and> Pool_freesize (projr (Pool_release p1 b t')) = Pool_freesize p"
  using assms
  by (auto simp: Pool_acquire_def Pool_release_def Pool_size_def Pool_freesize_def Let_def
      healthy_def split: if_splits list.splits)

theorem acquire_release_net_zero_witness:
  "idle fresh_pool \<noteq> []
   \<and> Pool_acquire fresh_pool 1 = Inr (open_bridge 0 0, example_pool)
   \<and> within_recycle example_pool (open_bridge 0 0) 2
   \<and> healthy (open_bridge 0 0)
   \<and> \<not> isl (Pool_release example_pool (open_bridge 0 0) 2)
   \<and> Pool_size (projr (Pool_release example_pool (open_bridge 0 0) 2)) = Pool_size fresh_pool
   \<and> Pool_freesize (projr (Pool_release example_pool (open_bridge 0 0) 2)) =
       Pool_freesize fresh_pool"
  using acquire_release_net_zero [of fresh_pool 1 "open_bridge 0 0" example_pool 2]
  by (simp add: fresh_pool_def example_pool_def Pool_acquire_def within_recycle_def
      healthy_def open_bridge_def)

text \<open>
  C5 as stated fails: in the pool reached from \<open>create_pool 1 2\<close> by one acquire there
  is no idle Bridge, so the next acquire opens a new one, and after that Bridge is
  released the size is \<open>2\<close>, not \<open>1\<close>, and the freesize is \<open>1\<close>, not \<open>0\<close>.
\<close>

theorem acquire_release_net_zero_counterexample:
  "run_pool (projr (create_pool 1 2 60 (- 1) 0)) [(0, Acquire)] = example_pool
   \<and> Pool_acquire example_pool 5 =
       Inr (open_bridge 1 5, example_pool\<lparr>in_use := [1, 0], next_ident := 2\<rparr>)
   \<and> \<not> isl (Pool_release (example_pool\<lparr>in_use := [1, 0], next_ident := 2\<rparr>)
               (open_bridge 1 5) 5)
   \<and> Pool_size example_pool = 1
   \<and> Pool_size (projr (Pool_release (example_pool\<lparr>in_use := [1, 0], next_ident := 2\<rparr>)
                  (open_bridge 1 5) 5)) = 2
   \<and> Pool_freesize example_pool = 0
   \<and> Pool_freesize (projr (Pool_release (example_pool\<lparr>in_use := [1, 0], next_ident := 2\<rparr>)
                  (open_bridge 1 5) 5)) = 1
   \<and> Pool_size (projr (Pool_release (example_pool\<lparr>in_use := [1, 0], next_ident := 2\<rparr>)
                  (open_bridge 1 5) 5)) \<noteq> Pool_size example_pool
   \<and> Pool_freesize (projr (Pool_release (example_pool\<lparr>in_use := [1, 0], next_ident := 2\<rparr>)
                  (open_bridge 1 5) 5)) \<noteq> Pool_freesize example_pool"
  by (simp add: create_pool_def run_pool_def Pool_acquire_def Pool_release_def Pool_size_def
      Pool_freesize_def example_pool_def open_bridge_def within_recycle_def healthy_def Let_def)

section \<open>One acquisition per wrapper\<close>

lemma await_acquire_count: "acquisitions (snd (await_acquire a w)) = Suc (acquisitions w)"
  by (simp add: await_acquire_def acquisitions_def Let_def split: sum.splits prod.splits)

lemma Engine_acquire_coro_count:
  "acquisitions (snd (Engine_acquire_coro self w)) = Suc (acquisitions w)"
  using await_acquire_count [of "engine_pool self" w]
  by (auto simp: Engine_acquire_coro_def split: sum.splits prod.splits)

lemma Engine_release_count: "acquisitions (snd (Engine_release self c w)) = acquisitions w"
  by (simp add: Engine_release_def acquisitions_def Let_def)

lemma acm_resolve_count:
  "acquisitions (snd (snd (acm_resolve cm w))) + pending (fst (snd (acm_resolve cm w))) =
     acquisitions w + pending cm"
  using Engine_acquire_coro_count [of "acm_engine cm" w]
  by (auto simp: acm_resolve_def pending_def split: acquisition.splits prod.splits)

lemma acm_enter_count:
  "acquisitions (snd (snd (acm_enter cm w))) + pending (fst (snd (acm_enter cm w))) =
     acquisitions w + pending cm"
  using acm_resolve_count [of cm w]
  by (auto simp: acm_enter_def pending_def split: prod.splits sum.splits)

lemma acm_exit_count:
  "acquisitions (snd (snd (acm_exit cm w))) + pending (fst (snd (acm_exit cm w))) =
     acquisitions w + pending cm"
proof (cases "acm_obj cm")
  case None
  then show ?thesis by (simp add: acm_exit_def)
next
  case (Some c)
  with Engine_release_count [of "acm_engine cm" c w] show ?thesis
    by (auto simp: acm_exit_def pending_def split: prod.splits sum.splits)
qed

lemma acm_step_count:
  "acquisitions (snd (acm_step op s)) + pending (fst (acm_step op s)) =
     acquisitions (snd s) + pending (fst s)"
proof (cases s)
  case (Pair cm w)
  then show ?thesis
    using acm_resolve_count [of cm w] acm_enter_count [of cm w] acm_exit_count [of cm w]
    by (cases op) simp_all
qed

lemma acm_fold_count:
  "acquisitions (snd (fold acm_step ops s)) + pending (fst (fold acm_step ops s)) =
     acquisitions (snd s) + pending (fst s)"
  by (induction ops arbitrary: s) (simp_all add: acm_step_count)

lemma release_slot_count: "acquisitions (snd (release_slot cm w)) = acquisitions w"
  by (simp add: release_slot_def Engine_release_count split: option.splits)

lemma cm_step_count: "acquisitions (snd (cm_step op s)) = acquisitions (snd s)"
proof (cases s)
  case (Pair cm w)
  then show ?thesis
    using release_slot_count [of cm w]
    by (cases op) (auto simp: ConnectionContextManager_exit_def split: prod.splits sum.splits)
qed

lemma cm_fold_count: "acquisitions (snd (fold cm_step ops s)) = acquisitions (snd s)"
  by (induction ops arbitrary: s) (simp_all add: cm_step_count)

text \<open>
  C7. \<open>Engine.acquire\<close> wraps one acquisition that has not started. Whatever the
  wrapper is then used for, resolved, entered or exited, any number of times in any
  order, at most one \<open>acquire\<close> call reaches the pool: exactly one once the wrapper
  has been resolved or entered, none before. On the other path, \<open>await engine\<close>
  makes exactly one \<open>acquire\<close> call, and entering and exiting the connection context
  manager it returns makes none.
\<close>

theorem acquisition_started_at_most_once:
  "acquisitions (snd (fold acm_step ops (Engine_acquire self, w))) \<le> acquisitions w + 1
   \<and> acquisitions (snd (fold acm_step ops (Engine_acquire self, w))) =
       acquisitions w
       + (case acm_coro (fst (fold acm_step ops (Engine_acquire self, w))) of
            Pending \<Rightarrow> 0 | Done r \<Rightarrow> 1)
   \<and> acquisitions (snd (Engine_await self w)) = acquisitions w + 1
   \<and> acquisitions (snd (fold cm_step cops (cm, w))) = acquisitions w"
proof -
  have "pending (Engine_acquire self) = 1" by (simp add: pending_def Engine_acquire_def)
  with acm_fold_count [of ops "(Engine_acquire self, w)"]
  have a: "acquisitions (snd (fold acm_step ops (Engine_acquire self, w)))
           + pending (fst (fold acm_step ops (Engine_acquire self, w))) = acquisitions w + 1"
    by simp
  have b: "acquisitions (snd (Engine_await self w)) = acquisitions w + 1"
    using Engine_acquire_coro_count [of self w]
    by (auto simp: Engine_await_def split: prod.splits sum.splits)
  from a b cm_fold_count [of cops "(cm, w)"] show ?thesis
    by (simp add: pending_def split: acquisition.splits)
qed

section \<open>The default dialect's JSON callables\<close>

lemma length_escape: "length s \<le> length (concat (map escape_char s))"
proof (induction s)
  case Nil
  then show ?case by simp
next
  case (Cons c s)
  have "1 \<le> length (escape_char c)" by (simp add: escape_char_def)
  with Cons show ?case by simp
qed

lemma quote_differs: "quote s \<noteq> s"
proof
  assume "quote s = s"
  then have "length (quote s) = length s" by simp
  with length_escape [of s] show False by (simp add: quote_def)
qed

lemma dumps_differs: "PStr (json_dumps x) \<noteq> x"
  by (cases x) (simp_all add: quote_differs)

text \<open>
  C9. For every value \<open>x\<close>, the dialect that \<open>get_dialect\<close> builds by default
  serializes \<open>x\<close> to the string \<open>json.dumps(x)\<close> and deserializes every value to
  itself, so deserializing the serialized \<open>x\<close> gives the string \<open>json.dumps(x)\<close>,
  which is never \<open>x\<close>. \<open>create_engine\<close> without a dialect argument uses that
  dialect, and an engine it returns carries it.
\<close>

theorem default_dialect_round_trip:
  "json_serializer (get_dialect None None) x = PStr (json_dumps x)
   \<and> json_deserializer (get_dialect None None) v = v
   \<and> json_deserializer (get_dialect None None) (json_serializer (get_dialect None None) x) =
       PStr (json_dumps x)
   \<and> json_deserializer (get_dialect None None) (json_serializer (get_dialect None None) x) \<noteq> x
   \<and> create_engine dsn mn mx None tmo rc w =
       create_engine_coro dsn mn mx (get_dialect None None) tmo rc w
   \<and> (case fst (create_engine dsn mn mx None tmo rc w) of
         Inl e \<Rightarrow> True
       | Inr eng \<Rightarrow> engine_dialect eng = get_dialect None None)"
proof -
  have "case fst (create_engine_coro dsn mn mx d tmo rc w) of
         Inl e \<Rightarrow> True | Inr eng \<Rightarrow> engine_dialect eng = d" for d
    by (simp add: create_engine_coro_def Engine_def Let_def split: sum.splits prod.splits)
  then have c: "case fst (create_engine dsn mn mx None tmo rc w) of
         Inl e \<Rightarrow> True | Inr eng \<Rightarrow> engine_dialect eng = get_dialect None None"
    by (simp add: create_engine_def module_dialect_def)
  have d: "create_engine dsn mn mx None tmo rc w =
       create_engine_coro dsn mn mx (get_dialect None None) tmo rc w"
    by (simp add: create_engine_def module_dialect_def)
  have "json_serializer (get_dialect None None) x = PStr (json_dumps x)"
    and "json_deserializer (get_dialect None None) v = v" for x v
    by (simp_all add: get_dialect_def SQLiteDialect_pysqlite_def)
  with c d dumps_differs [of x] show ?thesis by simp
qed

end
